theory Spec2Isabelle
  imports Complex_Main
begin

unbundle bit_operations_syntax

section \<open>The MPE engine (src/midi/mpe\_engine.py)\<close>

text \<open>
  Python integers are unbounded: they are \<open>int\<close>. The status-byte constants are the
  ones the module imports from \<open>rtmidi.midiconstants\<close> (the standard MIDI channel-voice
  status bytes); the two controller numbers are defined in the module itself.
\<close>

definition NOTE_OFF :: int where "NOTE_OFF = 0x80"
definition NOTE_ON :: int where "NOTE_ON = 0x90"
definition CONTROL_CHANGE :: int where "CONTROL_CHANGE = 0xB0"
definition PITCH_BEND :: int where "PITCH_BEND = 0xE0"
definition CC_TIMBRE :: int where "CC_TIMBRE = 74"
definition CC_ALL_NOTES_OFF :: int where "CC_ALL_NOTES_OFF = 123"

text \<open>
  The engine's state: \<open>active_notes\<close> is the dictionary finger key \<open>\<rightharpoonup>\<close> (channel index,
  note number), \<open>available_channels\<close> the list of free channel indices, in the order in
  which \<open>pop(0)\<close> hands them out. \<open>midi_out\<close> is the transport: the messages handed to
  \<open>_send\<close>, oldest first. (\<open>_send\<close> swallows a transport exception, so the bookkeeping
  never depends on delivery.)
\<close>

record 'f mpe_engine =
  active_notes :: "'f \<rightharpoonup> int \<times> int"
  available_channels :: "int list"
  midi_out :: "int list list"

definition mpe_init :: "'f mpe_engine" where
  "mpe_init = \<lparr>active_notes = Map.empty, available_channels = [1..15], midi_out = []\<rparr>"

definition send :: "int list \<Rightarrow> 'f mpe_engine \<Rightarrow> 'f mpe_engine" where
  "send message s = s\<lparr>midi_out := midi_out s @ [message]\<rparr>"

definition note_on :: "'f \<Rightarrow> int \<Rightarrow> int \<Rightarrow> 'f mpe_engine \<Rightarrow> 'f mpe_engine" where
  "note_on finger_id note_num velocity s =
     (case available_channels s of
        [] \<Rightarrow> s
      | chan # rest \<Rightarrow>
          let s1 = s\<lparr>available_channels := rest,
                     active_notes := (active_notes s)(finger_id \<mapsto> (chan, note_num))\<rparr>;
              pb_centre_lsb = 0x00;
              pb_centre_msb = 0x40;
              s2 = send [PITCH_BEND OR chan, pb_centre_lsb, pb_centre_msb] s1;
              velocity' = max 1 (min 127 velocity)
          in send [NOTE_ON OR chan, note_num AND 0x7F, velocity'] s2)"

text \<open>
  Python's \<open>int(f)\<close> on a float truncates towards zero. Floats are modelled as reals
  (rounding, infinities and NaN are outside the model).
\<close>

definition py_int :: "real \<Rightarrow> int" where
  "py_int r = (if 0 \<le> r then \<lfloor>r\<rfloor> else \<lceil>r\<rceil>)"

definition update_expression :: "'f \<Rightarrow> int \<Rightarrow> real \<Rightarrow> 'f mpe_engine \<Rightarrow> 'f mpe_engine" where
  "update_expression finger_id pitch_bend y_val s =
     (case active_notes s finger_id of
        None \<Rightarrow> s
      | Some (chan, _) \<Rightarrow>
          let pb = max 0 (min 16383 pitch_bend);
              pb_lsb = pb AND 0x7F;
              pb_msb = (drop_bit 7 pb) AND 0x7F;
              s1 = send [PITCH_BEND OR chan, pb_lsb, pb_msb] s;
              cc_val = max 0 (min 127 (py_int (y_val * 127)))
          in send [CONTROL_CHANGE OR chan, CC_TIMBRE, cc_val] s1)"

definition note_off :: "'f \<Rightarrow> int option \<Rightarrow> 'f mpe_engine \<Rightarrow> 'f mpe_engine" where
  "note_off finger_id note_num s =
     (case active_notes s finger_id of
        None \<Rightarrow> s
      | Some (chan, stored_note) \<Rightarrow>
          let s1 = s\<lparr>active_notes := (active_notes s)(finger_id := None)\<rparr>;
              actual_note = (case note_num of None \<Rightarrow> stored_note | Some n \<Rightarrow> n);
              s2 = send [NOTE_OFF OR chan, actual_note AND 0x7F, 0] s1;
              s3 = send [PITCH_BEND OR chan, 0x00, 0x40] s2
          in s3\<lparr>available_channels := available_channels s3 @ [chan]\<rparr>)"

definition all_notes_off :: "'f mpe_engine \<Rightarrow> 'f mpe_engine" where
  "all_notes_off s =
     (let s1 = fold (\<lambda>channel. send [CONTROL_CHANGE OR channel, CC_ALL_NOTES_OFF, 0]) [0..15] s
      in s1\<lparr>active_notes := Map.empty, available_channels := [1..15]\<rparr>)"

text \<open>The channels held by active associations, and the fixed set of note channels.\<close>

definition in_use :: "'f mpe_engine \<Rightarrow> int set" where
  "in_use s = fst ` ran (active_notes s)"

definition note_channels :: "int set" where
  "note_channels = {1..15}"


text \<open>
  A call of the engine's public interface, and a run of calls from left to right.
\<close>

datatype 'f mpe_call =
    NoteOn 'f int int
  | UpdateExpression 'f int real
  | NoteOff 'f "int option"
  | AllNotesOff

fun apply_call :: "'f mpe_call \<Rightarrow> 'f mpe_engine \<Rightarrow> 'f mpe_engine" where
  "apply_call (NoteOn f n v) s = note_on f n v s"
| "apply_call (UpdateExpression f pb y) s = update_expression f pb y s"
| "apply_call (NoteOff f n) s = note_off f n s"
| "apply_call AllNotesOff s = all_notes_off s"

text \<open>
  A well-formed 3-byte channel-voice message: the status byte is a message type of the
  engine combined with a channel index 0..15, and both data bytes are 7-bit values.
\<close>

definition channel_voice_message :: "int list \<Rightarrow> bool" where
  "channel_voice_message m =
     (case m of
        [status, d1, d2] \<Rightarrow>
          (\<exists>message_type \<in> {NOTE_OFF, NOTE_ON, CONTROL_CHANGE, PITCH_BEND}.
             \<exists>channel_index \<in> {0..15}. status = message_type OR channel_index)
          \<and> 0 \<le> d1 \<and> d1 \<le> 127 \<and> 0 \<le> d2 \<and> d2 \<le> 127
      | _ \<Rightarrow> False)"

definition channels_in_range :: "'f mpe_engine \<Rightarrow> bool" where
  "channels_in_range s =
     ((\<forall>f c n. active_notes s f = Some (c, n) \<longrightarrow> 1 \<le> c \<and> c \<le> 15)
      \<and> (\<forall>c \<in> set (available_channels s). 1 \<le> c \<and> c \<le> 15))"

definition well_formed_out :: "'f mpe_engine \<Rightarrow> bool" where
  "well_formed_out s = (\<forall>m \<in> set (midi_out s). channel_voice_message m)"

text \<open>
  No channel is issued twice: the pool has no duplicates, two fingers never hold the same
  channel, no held channel is in the pool, and every channel is one of 1..15.
  \<open>pool_partition\<close> adds that none is lost.
\<close>

definition no_double_allocation :: "'f mpe_engine \<Rightarrow> bool" where
  "no_double_allocation s =
     (distinct (available_channels s)
      \<and> (\<forall>f g c n m. active_notes s f = Some (c, n) \<and> active_notes s g = Some (c, m) \<longrightarrow> f = g)
      \<and> in_use s \<inter> set (available_channels s) = {}
      \<and> in_use s \<union> set (available_channels s) \<subseteq> note_channels)"

definition pool_partition :: "'f mpe_engine \<Rightarrow> bool" where
  "pool_partition s =
     (in_use s \<inter> set (available_channels s) = {}
      \<and> in_use s \<union> set (available_channels s) = note_channels)"

section \<open>The One-Euro filter (src/utils/filters.py)\<close>

text \<open>
  Python floats are modelled as reals. The only exception float arithmetic raises here is
  \<open>ZeroDivisionError\<close>, on a division whose divisor is zero; every division of the source
  is a branch of the model. An exception ends the call (and, in \<open>main.py\<close>, the run loop),
  so a failed call returns the error alone.
\<close>

datatype py_error = ValueError | ZeroDivisionError | IndexError | KeyError

record one_euro_filter =
  freq :: real
  min_cutoff :: real
  beta :: real
  d_cutoff :: real
  x_prev :: "real option"
  dx_prev :: real
  t_prev :: "real option"

definition new_filter :: "real \<Rightarrow> real \<Rightarrow> real \<Rightarrow> real \<Rightarrow> one_euro_filter" where
  "new_filter fr mc b dc =
     \<lparr>freq = fr, min_cutoff = mc, beta = b, d_cutoff = dc,
      x_prev = None, dx_prev = 0, t_prev = None\<rparr>"

definition alpha :: "real \<Rightarrow> real \<Rightarrow> py_error + real" where
  "alpha t_e cutoff =
     (let r = 2 * pi * cutoff * t_e
      in if r + 1 = 0 then Inl ZeroDivisionError else Inr (r / (r + 1)))"

text \<open>The three steps of \<open>__call__\<close> that can raise, in the order of the source.\<close>

definition elapsed :: "one_euro_filter \<Rightarrow> real \<Rightarrow> py_error + real" where
  "elapsed f t =
     (case t_prev f of
        Some tp \<Rightarrow> Inr (t - tp)
      | None \<Rightarrow> if freq f = 0 then Inl ZeroDivisionError else Inr (1 / freq f))"

definition raw_derivative :: "one_euro_filter \<Rightarrow> real \<Rightarrow> real \<Rightarrow> py_error + real" where
  "raw_derivative f x t_e =
     (case x_prev f of
        Some xp \<Rightarrow> if t_e = 0 then Inl ZeroDivisionError else Inr ((x - xp) / t_e)
      | None \<Rightarrow> Inr 0)"

definition filter_call :: "one_euro_filter \<Rightarrow> real \<Rightarrow> real \<Rightarrow> py_error + real \<times> one_euro_filter" where
  "filter_call f x t =
     (case elapsed f t of
        Inl e \<Rightarrow> Inl e
      | Inr t_e \<Rightarrow>
     (case alpha t_e (d_cutoff f) of
        Inl e \<Rightarrow> Inl e
      | Inr a_d \<Rightarrow>
     (case raw_derivative f x t_e of
        Inl e \<Rightarrow> Inl e
      | Inr dx \<Rightarrow>
          let dx_hat = a_d * dx + (1 - a_d) * dx_prev f;
              cutoff = min_cutoff f + beta f * \<bar>dx_hat\<bar>
          in (case alpha t_e cutoff of
                Inl e \<Rightarrow> Inl e
              | Inr a \<Rightarrow>
                  let x_hat = (case x_prev f of Some xp \<Rightarrow> a * x + (1 - a) * xp | None \<Rightarrow> x)
                  in Inr (x_hat, f\<lparr>t_prev := Some t, dx_prev := dx_hat, x_prev := Some x_hat\<rparr>)))))"

definition filter_reset :: "one_euro_filter \<Rightarrow> one_euro_filter" where
  "filter_reset f = f\<lparr>x_prev := None, dx_prev := 0, t_prev := None\<rparr>"

text \<open>A run of samples \<open>(x, t)\<close> through one filter, stopping at the first error.\<close>

fun filter_run :: "one_euro_filter \<Rightarrow> (real \<times> real) list \<Rightarrow> py_error + one_euro_filter" where
  "filter_run f [] = Inr f"
| "filter_run f ((x, t) # samples) =
     (case filter_call f x t of Inl e \<Rightarrow> Inl e | Inr (_, f') \<Rightarrow> filter_run f' samples)"

section \<open>The spatial engine (src/core/spatial.py)\<close>

text \<open>
  The homography is a 3 by 3 matrix, \<open>None\<close> while uncalibrated. The two OpenCV calls
  are outside the repository. \<open>cv2.perspectiveTransform\<close> is written out as the
  projective map it computes: the point \<open>(x, y, 1)\<close> times the matrix, divided by the
  third coordinate, and \<open>(0, 0)\<close> where that coordinate is zero.
  \<open>cv2.findHomography\<close> is a parameter of \<open>calibrate\<close>: a function from the two point
  lists to an exception or the matrix it returns (\<open>None\<close> when it returns no matrix).
  \<open>calibrate\<close> returns the exception it raised, if any, and the engine as the call
  leaves it.
\<close>

record mat3 =
  m00 :: real
  m01 :: real
  m02 :: real
  m10 :: real
  m11 :: real
  m12 :: real
  m20 :: real
  m21 :: real
  m22 :: real

record spatial_engine =
  homography_matrix :: "mat3 option"

type_synonym find_homography = "(real \<times> real) list \<Rightarrow> (real \<times> real) list \<Rightarrow> py_error + mat3 option"

definition spatial_init :: spatial_engine where
  "spatial_init = \<lparr>homography_matrix = None\<rparr>"

definition perspectiveTransform :: "mat3 \<Rightarrow> real \<Rightarrow> real \<Rightarrow> real \<times> real" where
  "perspectiveTransform h x y =
     (let w = m20 h * x + m21 h * y + m22 h
      in if w = 0 then (0, 0)
         else ((m00 h * x + m01 h * y + m02 h) / w, (m10 h * x + m11 h * y + m12 h) / w))"

definition calibrate ::
  "find_homography \<Rightarrow> (int \<times> int) list \<Rightarrow> int \<Rightarrow> int \<Rightarrow> spatial_engine
     \<Rightarrow> py_error option \<times> spatial_engine" where
  "calibrate findHomography src_points frame_w frame_h s =
     (if length src_points \<noteq> 4 then (Some ValueError, s)
      else if frame_w = 0 \<or> frame_h = 0 then (Some ZeroDivisionError, s)
      else
        let src_norm = map (\<lambda>(x, y). (real_of_int x / real_of_int frame_w,
                                         real_of_int y / real_of_int frame_h)) src_points;
            dst_norm = [(0, 0), (1, 0), (1, 1), (0, 1)]
        in (case findHomography src_norm dst_norm of
              Inl e \<Rightarrow> (Some e, s)
            | Inr m \<Rightarrow> (None, s\<lparr>homography_matrix := m\<rparr>)))"

definition spatial_reset :: "spatial_engine \<Rightarrow> spatial_engine" where
  "spatial_reset s = s\<lparr>homography_matrix := None\<rparr>"

definition project_point :: "spatial_engine \<Rightarrow> real \<Rightarrow> real \<Rightarrow> real \<times> real" where
  "project_point s x y =
     (case homography_matrix s of
        None \<Rightarrow> (x, y)
      | Some h \<Rightarrow>
          let (px, py) = perspectiveTransform h x y
          in (max 0 (min 1 px), max 0 (min 1 py)))"

text \<open>
  Four pixel points are degenerate when three of them lie on one line (then the quadrilateral
  has no interior and no homography maps it onto the unit square).
\<close>

definition collinear3 :: "int \<times> int \<Rightarrow> int \<times> int \<Rightarrow> int \<times> int \<Rightarrow> bool" where
  "collinear3 p q r =
     ((fst q - fst p) * (snd r - snd p) - (snd q - snd p) * (fst r - fst p) = 0)"

definition degenerate :: "(int \<times> int) list \<Rightarrow> bool" where
  "degenerate ps =
     (case ps of
        [a, b, c, d] \<Rightarrow> collinear3 a b c \<or> collinear3 a b d \<or> collinear3 a c d \<or> collinear3 b c d
      | _ \<Rightarrow> False)"

text \<open>
  Two values for the examples below: the homography of the upper half of the frame (the
  corners \<open>(0,0), (1,0), (1,0.5), (0,0.5)\<close> onto the unit square), which doubles the
  vertical coordinate, and a homography solver that returns no matrix.
\<close>

definition upper_half :: mat3 where
  "upper_half = \<lparr>m00 = 1, m01 = 0, m02 = 0, m10 = 0, m11 = 2, m12 = 0, m20 = 0, m21 = 0, m22 = 1\<rparr>"

definition no_matrix :: find_homography where
  "no_matrix src_norm dst_norm = Inr None"

section \<open>The controller (src/main.py)\<close>

definition KEY_ZONE_TOP :: real where "KEY_ZONE_TOP = 0.76"
definition KEY_ZONE_RELEASE :: real where "KEY_ZONE_RELEASE = 0.73"

text \<open>The values of \<open>FINGER_TIPS\<close>, in the dictionary's order.\<close>

definition FINGER_TIPS :: "int list" where
  "FINGER_TIPS = [8, 12, 16, 20]"

type_synonym finger_key = "int \<times> int"

record controller =
  note_start :: int
  note_end :: int
  num_notes :: int
  spatial :: spatial_engine
  mpe :: "finger_key mpe_engine"
  filters_x :: "finger_key \<rightharpoonup> one_euro_filter"
  filters_y :: "finger_key \<rightharpoonup> one_euro_filter"
  active_fingers :: "finger_key \<rightharpoonup> int"

text \<open>
  \<open>__init__\<close>, with the four values it reads from the configuration file as parameters:
  the note range, the smoothing beta and the target frame rate. One filter per axis for
  each of the four fingertips of the hands 0 and 1.
\<close>

definition controller_init :: "int \<Rightarrow> int \<Rightarrow> real \<Rightarrow> real \<Rightarrow> controller" where
  "controller_init ns ne b fr =
     \<lparr>note_start = ns, note_end = ne, num_notes = ne - ns,
      spatial = spatial_init, mpe = mpe_init,
      filters_x = (\<lambda>k. if fst k \<in> {0, 1} \<and> snd k \<in> set FINGER_TIPS
                         then Some (new_filter fr 1 b 1) else None),
      filters_y = (\<lambda>k. if fst k \<in> {0, 1} \<and> snd k \<in> set FINGER_TIPS
                         then Some (new_filter fr 1 b 1) else None),
      active_fingers = Map.empty\<rparr>"

definition note_from_x :: "controller \<Rightarrow> real \<Rightarrow> int" where
  "note_from_x c x = note_start c + py_int (max 0 (min 0.9999 x) * real_of_int (num_notes c))"

text \<open>
  The read \<open>landmarks[tip_id]\<close> of a Python list: an index below zero counts back from
  the end of the list, and an index outside the list raises \<open>IndexError\<close>.
\<close>

definition landmark_at :: "(real \<times> real) list \<Rightarrow> int \<Rightarrow> py_error + real \<times> real" where
  "landmark_at landmarks tip_id =
     (if 0 \<le> tip_id \<and> tip_id < int (length landmarks)
        then Inr (landmarks ! nat tip_id)
      else if tip_id < 0 \<and> - int (length landmarks) \<le> tip_id
        then Inr (landmarks ! nat (int (length landmarks) + tip_id))
      else Inl IndexError)"

text \<open>
  The body of the loop of \<open>_process_hand\<close> for one fingertip. A landmark is its \<open>(x, y)\<close>;
  \<open>active\<close> is the set of notes collected so far.
\<close>

definition process_finger ::
  "(real \<times> real) list \<Rightarrow> int \<Rightarrow> real \<Rightarrow> int \<Rightarrow> controller \<times> int set
     \<Rightarrow> py_error + controller \<times> int set" where
  "process_finger landmarks hand_idx t tip_id ca =
     (let c = fst ca; active = snd ca; k = (hand_idx, tip_id)
      in case landmark_at landmarks tip_id of
           Inl e \<Rightarrow> Inl e
         | Inr tip \<Rightarrow>
      (case filters_x c k of
           None \<Rightarrow> Inl KeyError
         | Some flx \<Rightarrow>
      (case filter_call flx (fst tip) t of
           Inl e \<Rightarrow> Inl e
         | Inr (fx, flx') \<Rightarrow>
      (case filters_y c k of
           None \<Rightarrow> Inl KeyError
         | Some fly \<Rightarrow>
      (case filter_call fly (snd tip) t of
           Inl e \<Rightarrow> Inl e
         | Inr (fy, fly') \<Rightarrow>
             let c1 = c\<lparr>filters_x := (filters_x c)(k \<mapsto> flx'),
                        filters_y := (filters_y c)(k \<mapsto> fly')\<rparr>;
                 (px, py) = project_point (spatial c1) fx fy;
                 pressing = (KEY_ZONE_TOP \<le> fy)
             in if pressing then
                  let note = note_from_x c1 px;
                      active' = insert note active
                  in (case active_fingers c1 k of
                        None \<Rightarrow>
                          Inr (c1\<lparr>mpe := note_on k note 80 (mpe c1),
                                   active_fingers := (active_fingers c1)(k \<mapsto> note)\<rparr>, active')
                      | Some old \<Rightarrow>
                          if old \<noteq> note then
                            Inr (c1\<lparr>mpe := note_on k note 80 (note_off k (Some old) (mpe c1)),
                                     active_fingers := (active_fingers c1)(k \<mapsto> note)\<rparr>, active')
                          else Inr (c1, active'))
                else
                  (case active_fingers c1 k of
                     Some old \<Rightarrow>
                       if fy < KEY_ZONE_RELEASE then
                         Inr (c1\<lparr>mpe := note_off k (Some old) (mpe c1),
                                  active_fingers := (active_fingers c1)(k := None)\<rparr>, active)
                       else Inr (c1, active)
                   | None \<Rightarrow> Inr (c1, active)))))))"

fun process_tips ::
  "(real \<times> real) list \<Rightarrow> int \<Rightarrow> real \<Rightarrow> int list \<Rightarrow> controller \<times> int set
     \<Rightarrow> py_error + controller \<times> int set" where
  "process_tips landmarks hand_idx t [] ca = Inr ca"
| "process_tips landmarks hand_idx t (tip_id # tips) ca =
     (case process_finger landmarks hand_idx t tip_id ca of
        Inl e \<Rightarrow> Inl e
      | Inr ca' \<Rightarrow> process_tips landmarks hand_idx t tips ca')"

definition process_hand ::
  "controller \<Rightarrow> (real \<times> real) list \<Rightarrow> int \<Rightarrow> real \<Rightarrow> py_error + controller \<times> int set" where
  "process_hand c landmarks hand_idx t = process_tips landmarks hand_idx t FINGER_TIPS (c, {})"

text \<open>The channel the engine holds for a finger, if any.\<close>

definition finger_channel :: "controller \<Rightarrow> finger_key \<Rightarrow> int option" where
  "finger_channel c k = map_option fst (active_notes (mpe c) k)"

text \<open>
  States for the examples below: a filter of the controller after one sample, a fresh
  controller for the notes 60 to 84, the same calibrated on the upper half of the frame,
  and the same after a first frame in which the index fingertip of hand 0 pressed note 60.
\<close>

definition sampled :: "real \<Rightarrow> real \<Rightarrow> one_euro_filter" where
  "sampled x t = (new_filter 60 1 0 1)\<lparr>x_prev := Some x, t_prev := Some t\<rparr>"

definition fresh_controller :: controller where
  "fresh_controller = controller_init 60 84 0 60"

definition calibrated_controller :: controller where
  "calibrated_controller = fresh_controller\<lparr>spatial := \<lparr>homography_matrix = Some upper_half\<rparr>\<rparr>"

definition pressed_controller :: controller where
  "pressed_controller =
     fresh_controller
       \<lparr>mpe := note_on (0, 8) 60 80 mpe_init,
        filters_x := (filters_x fresh_controller)((0, 8) \<mapsto> sampled 0 0),
        filters_y := (filters_y fresh_controller)((0, 8) \<mapsto> sampled 0.8 0),
        active_fingers := [(0, 8) \<mapsto> 60]\<rparr>"

section \<open>Panic\<close>

lemma fold_send_midi_out:
  "midi_out (fold (\<lambda>c. send (g c)) cs s) = midi_out s @ map g cs"
  by (induction cs arbitrary: s) (simp_all add: send_def)

lemma fold_send_active_notes:
  "active_notes (fold (\<lambda>c. send (g c)) cs s) = active_notes s"
  by (induction cs arbitrary: s) (simp_all add: send_def)

text \<open>
  C9. \<open>all_notes_off\<close>, in any engine state, hands the transport one message
  \<open>[CONTROL_CHANGE | channel, 123, 0]\<close> for each of the channels 0..15 in order (after
  whatever was sent before), removes every association and restores the free pool to
  the 15 note channels 1..15.
\<close>

theorem all_notes_off_panic:
  "midi_out (all_notes_off s) = midi_out s @ map (\<lambda>channel. [0xB0 OR channel, 123, 0]) [0..15]
   \<and> active_notes (all_notes_off s) = Map.empty
   \<and> in_use (all_notes_off s) = {}
   \<and> available_channels (all_notes_off s) = [1..15]
   \<and> set (available_channels (all_notes_off s)) = note_channels"
  by (simp add: all_notes_off_def Let_def fold_send_midi_out in_use_def note_channels_def
      CONTROL_CHANGE_def CC_ALL_NOTES_OFF_def)


section \<open>Outbound messages\<close>

lemma cvm_intro:
  "message_type \<in> {NOTE_OFF, NOTE_ON, CONTROL_CHANGE, PITCH_BEND} \<Longrightarrow> 0 \<le> c \<Longrightarrow> c \<le> 15
   \<Longrightarrow> 0 \<le> d1 \<Longrightarrow> d1 \<le> 127 \<Longrightarrow> 0 \<le> d2 \<Longrightarrow> d2 \<le> 127
   \<Longrightarrow> channel_voice_message [message_type OR c, d1, d2]"
  unfolding channel_voice_message_def by (simp only: list.case) (intro conjI bexI[of _ c] bexI[of _ message_type]; simp)

lemma well_formed_send:
  "well_formed_out s \<Longrightarrow> channel_voice_message m \<Longrightarrow> well_formed_out (send m s)"
  by (simp add: well_formed_out_def send_def)

lemma send_fields [simp]:
  "active_notes (send m s) = active_notes s"
  "available_channels (send m s) = available_channels s"
  "midi_out (send m s) = midi_out s @ [m]"
  by (simp_all add: send_def)

lemma note_on_range:
  assumes "channels_in_range s" "well_formed_out s"
  shows "channels_in_range (note_on f n v s) \<and> well_formed_out (note_on f n v s)"
proof (cases "available_channels s")
  case Nil
  then show ?thesis using assms by (simp add: note_on_def)
next
  case (Cons chan rest)
  have c: "1 \<le> chan" "chan \<le> 15" and r: "\<forall>c \<in> set rest. 1 \<le> c \<and> c \<le> 15"
    using assms(1) Cons by (auto simp: channels_in_range_def)
  have m1: "channel_voice_message [PITCH_BEND OR chan, 0x00, 0x40]"
    using c by (intro cvm_intro) simp_all
  have m2: "channel_voice_message [NOTE_ON OR chan, n AND 0x7F, max 1 (min 127 v)]"
    using c by (intro cvm_intro) simp_all
  have "channels_in_range (note_on f n v s)"
    using assms(1) c r Cons
    by (auto simp: channels_in_range_def note_on_def Let_def split: if_splits)
  moreover have "well_formed_out (note_on f n v s)"
    using assms(2) m1 m2 Cons
    by (simp add: note_on_def Let_def well_formed_out_def)
  ultimately show ?thesis ..
qed

lemma update_expression_range:
  assumes "channels_in_range s" "well_formed_out s"
  shows "channels_in_range (update_expression f pb y s) \<and> well_formed_out (update_expression f pb y s)"
proof (cases "active_notes s f")
  case None
  then show ?thesis using assms by (simp add: update_expression_def)
next
  case (Some a)
  obtain chan n where a: "a = (chan, n)" by (cases a)
  have c: "1 \<le> chan" "chan \<le> 15"
    using assms(1) Some a by (auto simp: channels_in_range_def)
  have m1: "channel_voice_message [PITCH_BEND OR chan, max 0 (min 16383 pb) AND 0x7F,
      drop_bit 7 (max 0 (min 16383 pb)) AND 0x7F]"
    using c by (intro cvm_intro) simp_all
  have m2: "channel_voice_message [CONTROL_CHANGE OR chan, CC_TIMBRE, max 0 (min 127 (py_int (y * 127)))]"
    using c by (intro cvm_intro) (simp_all add: CC_TIMBRE_def)
  have "channels_in_range (update_expression f pb y s)"
    using assms(1) Some a
    by (simp add: channels_in_range_def update_expression_def Let_def)
  moreover have "well_formed_out (update_expression f pb y s)"
    using assms(2) m1 m2 Some a
    by (simp add: update_expression_def Let_def well_formed_out_def)
  ultimately show ?thesis ..
qed

lemma note_off_range:
  assumes "channels_in_range s" "well_formed_out s"
  shows "channels_in_range (note_off f n s) \<and> well_formed_out (note_off f n s)"
proof (cases "active_notes s f")
  case None
  then show ?thesis using assms by (simp add: note_off_def)
next
  case (Some a)
  obtain chan stored where a: "a = (chan, stored)" by (cases a)
  have c: "1 \<le> chan" "chan \<le> 15"
    using assms(1) Some a by (auto simp: channels_in_range_def)
  have m1: "channel_voice_message [NOTE_OFF OR chan, (case n of None \<Rightarrow> stored | Some k \<Rightarrow> k) AND 0x7F, 0]"
    using c by (intro cvm_intro) simp_all
  have m2: "channel_voice_message [PITCH_BEND OR chan, 0x00, 0x40]"
    using c by (intro cvm_intro) simp_all
  have "channels_in_range (note_off f n s)"
    using assms(1) Some a c
    by (auto simp: channels_in_range_def note_off_def Let_def split: if_splits)
  moreover have "well_formed_out (note_off f n s)"
    using assms(2) m1 m2 Some a
    by (simp add: note_off_def Let_def well_formed_out_def)
  ultimately show ?thesis ..
qed

lemma all_notes_off_range:
  assumes "well_formed_out s"
  shows "channels_in_range (all_notes_off s) \<and> well_formed_out (all_notes_off s)"
proof -
  have "channel_voice_message [CONTROL_CHANGE OR c, CC_ALL_NOTES_OFF, 0]" if "c \<in> set [0..15]" for c
    using that by (intro cvm_intro) (simp_all add: CC_ALL_NOTES_OFF_def)
  then have "well_formed_out (all_notes_off s)"
    using assms by (auto simp: all_notes_off_def Let_def well_formed_out_def fold_send_midi_out)
  moreover have "channels_in_range (all_notes_off s)"
    by (simp add: all_notes_off_def Let_def channels_in_range_def)
  ultimately show ?thesis by simp
qed

lemma apply_call_range:
  "channels_in_range s \<Longrightarrow> well_formed_out s
   \<Longrightarrow> channels_in_range (apply_call c s) \<and> well_formed_out (apply_call c s)"
  by (cases c) (simp_all add: note_on_range update_expression_range note_off_range all_notes_off_range)

lemma fold_apply_call_range:
  "channels_in_range s \<Longrightarrow> well_formed_out s
   \<Longrightarrow> channels_in_range (fold apply_call cs s) \<and> well_formed_out (fold apply_call cs s)"
  by (induction cs arbitrary: s) (simp_all add: apply_call_range)

lemma mpe_init_range: "channels_in_range mpe_init \<and> well_formed_out mpe_init"
  by (simp add: channels_in_range_def well_formed_out_def mpe_init_def)

text \<open>
  C10. Whatever calls of \<open>note_on\<close>, \<open>update_expression\<close>, \<open>note_off\<close> and
  \<open>all_notes_off\<close> a fresh engine receives, with arbitrary finger ids, note numbers,
  velocities, pitch-bend and timbre values, every message it hands to the transport is a
  well-formed 3-byte channel-voice message: the status byte is a message type combined
  with a channel index 0..15, and both data bytes lie in 0..127.
\<close>

theorem outbound_messages_well_formed:
  "\<forall>m \<in> set (midi_out (fold apply_call calls mpe_init)). channel_voice_message m"
  using fold_apply_call_range [OF mpe_init_range [THEN conjunct1] mpe_init_range [THEN conjunct2], of calls]
  by (simp add: well_formed_out_def)


text \<open>
  The theorem on one run: a note-on with an out-of-range note and velocity, an expression
  update with out-of-range bend and timbre, the note-off, and the messages they send.
\<close>

theorem outbound_messages_well_formed_witness:
  "midi_out (fold apply_call
       [NoteOn (0::int, 8::int) 300 200, UpdateExpression (0, 8) 20000 1.5, NoteOff (0, 8) None]
       mpe_init)
     = [[0xE1, 0, 0x40], [0x91, 44, 127], [0xE1, 127, 127], [0xB1, 74, 127],
        [0x81, 44, 0], [0xE1, 0, 0x40]]
   \<and> channel_voice_message [0xE1, 0, 0x40] \<and> channel_voice_message [0x91, 44, 127]
   \<and> channel_voice_message [0xE1, 127, 127] \<and> channel_voice_message [0xB1, 74, 127]
   \<and> channel_voice_message [0x81, 44, 0]"
proof -
  have run: "midi_out (fold apply_call
       [NoteOn (0::int, 8::int) 300 200, UpdateExpression (0, 8) 20000 1.5, NoteOff (0, 8) None]
       mpe_init)
     = [[0xE1, 0, 0x40], [0x91, 44, 127], [0xE1, 127, 127], [0xB1, 74, 127],
        [0x81, 44, 0], [0xE1, 0, 0x40]]"
    by (simp add: mpe_init_def note_on_def update_expression_def note_off_def Let_def send_def
        upto_rec1 py_int_def NOTE_ON_def NOTE_OFF_def PITCH_BEND_def CONTROL_CHANGE_def
        CC_TIMBRE_def)
  from outbound_messages_well_formed
    [of "[NoteOn (0::int, 8::int) 300 200, UpdateExpression (0, 8) 20000 1.5, NoteOff (0, 8) None]"]
  show ?thesis unfolding run by simp
qed

section \<open>The channel pool\<close>


lemma in_use_iff: "c \<in> in_use s \<longleftrightarrow> (\<exists>f n. active_notes s f = Some (c, n))"
  by (force simp: in_use_def ran_def)

lemma note_on_empty_pool: "available_channels s = [] \<Longrightarrow> note_on f n v s = s"
  by (simp add: note_on_def)

lemma note_on_fields:
  assumes "available_channels s = chan # rest"
  shows "active_notes (note_on f n v s) = (active_notes s)(f \<mapsto> (chan, n))"
    and "available_channels (note_on f n v s) = rest"
    and "midi_out (note_on f n v s) =
           midi_out s @ [[PITCH_BEND OR chan, 0x00, 0x40], [NOTE_ON OR chan, n AND 0x7F, max 1 (min 127 v)]]"
  using assms by (simp_all add: note_on_def Let_def)

lemma note_off_absent: "active_notes s f = None \<Longrightarrow> note_off f n s = s"
  by (simp add: note_off_def)

lemma note_off_fields:
  assumes "active_notes s f = Some (chan, stored_note)"
  shows "active_notes (note_off f n s) = (active_notes s)(f := None)"
    and "available_channels (note_off f n s) = available_channels s @ [chan]"
    and "midi_out (note_off f n s) =
           midi_out s @ [[NOTE_OFF OR chan, (case n of None \<Rightarrow> stored_note | Some k \<Rightarrow> k) AND 0x7F, 0],
                         [PITCH_BEND OR chan, 0x00, 0x40]]"
  using assms by (simp_all add: note_off_def Let_def)

lemma update_expression_fields:
  "active_notes (update_expression f pb y s) = active_notes s"
  "available_channels (update_expression f pb y s) = available_channels s"
  by (simp_all add: update_expression_def Let_def split: option.splits prod.splits)

lemma note_on_no_double:
  assumes "no_double_allocation s"
  shows "no_double_allocation (note_on f n v s)"
proof (cases "available_channels s")
  case Nil
  then show ?thesis using assms by (simp add: note_on_empty_pool)
next
  case (Cons chan rest)
  note flds = note_on_fields [OF Cons]
  have d: "distinct (chan # rest)" and fresh: "chan \<notin> in_use s"
    and dis: "in_use s \<inter> set rest = {}" and sub: "in_use s \<union> set (chan # rest) \<subseteq> note_channels"
    and inj: "\<And>f g c n m. active_notes s f = Some (c, n) \<Longrightarrow> active_notes s g = Some (c, m) \<Longrightarrow> f = g"
    using assms Cons unfolding no_double_allocation_def by auto
  have iu: "in_use (note_on f n v s) \<subseteq> insert chan (in_use s)"
    by (auto simp: in_use_iff flds split: if_splits)
  have "distinct (available_channels (note_on f n v s))"
    using d by (simp add: flds)
  moreover have "\<forall>f' g c n' m. active_notes (note_on f n v s) f' = Some (c, n')
       \<and> active_notes (note_on f n v s) g = Some (c, m) \<longrightarrow> f' = g"
    using inj fresh by (auto simp: flds in_use_iff split: if_splits)
  moreover have "in_use (note_on f n v s) \<inter> set (available_channels (note_on f n v s)) = {}"
    using iu dis d by (auto simp: flds)
  moreover have "in_use (note_on f n v s) \<union> set (available_channels (note_on f n v s)) \<subseteq> note_channels"
    using iu sub by (auto simp: flds)
  ultimately show ?thesis unfolding no_double_allocation_def by blast
qed

lemma note_off_in_use:
  assumes "active_notes s f = Some (chan, stored)"
    and "\<And>f g c n m. active_notes s f = Some (c, n) \<Longrightarrow> active_notes s g = Some (c, m) \<Longrightarrow> f = g"
  shows "in_use (note_off f n s) = in_use s - {chan}"
proof -
  note act = note_off_fields(1) [OF assms(1)]
  show ?thesis
  proof (intro set_eqI iffI)
    fix c assume "c \<in> in_use (note_off f n s)"
    then obtain g m where g: "g \<noteq> f" "active_notes s g = Some (c, m)"
      by (auto simp: in_use_iff act split: if_splits)
    then have "c \<noteq> chan" using assms by blast
    then show "c \<in> in_use s - {chan}" using g by (auto simp: in_use_iff)
  next
    fix c assume "c \<in> in_use s - {chan}"
    then obtain g m where g: "active_notes s g = Some (c, m)" and ne: "c \<noteq> chan"
      by (auto simp: in_use_iff)
    then have "g \<noteq> f" using assms(1) by auto
    then have "active_notes (note_off f n s) g = Some (c, m)" using g by (simp add: act)
    then show "c \<in> in_use (note_off f n s)" unfolding in_use_iff by blast
  qed
qed

lemma note_off_no_double:
  assumes "no_double_allocation s"
  shows "no_double_allocation (note_off f n s)"
proof (cases "active_notes s f")
  case None
  then show ?thesis using assms by (simp add: note_off_absent)
next
  case (Some a)
  obtain chan stored where a: "active_notes s f = Some (chan, stored)"
    using Some by (cases a) simp
  note flds = note_off_fields [OF a]
  have d: "distinct (available_channels s)" 
    and dis: "in_use s \<inter> set (available_channels s) = {}"
    and sub: "in_use s \<union> set (available_channels s) \<subseteq> note_channels"
    and inj: "\<And>f g c n m. active_notes s f = Some (c, n) \<Longrightarrow> active_notes s g = Some (c, m) \<Longrightarrow> f = g"
    using assms unfolding no_double_allocation_def by auto
  have held: "chan \<in> in_use s" using a by (auto simp: in_use_iff)
  have iu: "in_use (note_off f n s) = in_use s - {chan}"
    using note_off_in_use [OF a inj] by simp
  have "distinct (available_channels (note_off f n s))"
    using d dis held by (auto simp: flds)
  moreover have "\<forall>f' g c n' m. active_notes (note_off f n s) f' = Some (c, n')
       \<and> active_notes (note_off f n s) g = Some (c, m) \<longrightarrow> f' = g"
    using inj by (auto simp: flds split: if_splits)
  moreover have "in_use (note_off f n s) \<inter> set (available_channels (note_off f n s)) = {}"
    using dis by (auto simp: flds iu)
  moreover have "in_use (note_off f n s) \<union> set (available_channels (note_off f n s)) \<subseteq> note_channels"
    using sub held by (auto simp: flds iu)
  ultimately show ?thesis unfolding no_double_allocation_def by blast
qed

lemma update_expression_no_double:
  "no_double_allocation s \<Longrightarrow> no_double_allocation (update_expression f pb y s)"
  by (simp add: no_double_allocation_def in_use_def update_expression_fields)

lemma all_notes_off_no_double: "no_double_allocation (all_notes_off s)"
  by (simp add: no_double_allocation_def in_use_def all_notes_off_def Let_def note_channels_def)

lemma mpe_init_no_double: "no_double_allocation mpe_init"
  by (simp add: no_double_allocation_def in_use_def mpe_init_def note_channels_def)

lemma fold_apply_call_no_double:
  "no_double_allocation s \<Longrightarrow> no_double_allocation (fold apply_call cs s)"
proof (induction cs arbitrary: s)
  case Nil
  then show ?case by simp
next
  case (Cons c cs)
  have "no_double_allocation (apply_call c s)"
    using Cons.prems
    by (cases c) (simp_all add: note_on_no_double note_off_no_double
        update_expression_no_double all_notes_off_no_double)
  then show ?case using Cons.IH by simp
qed

text \<open>The partition is kept by a note-on for a finger that holds no channel, and by a note-off.\<close>

lemma note_on_partition:
  assumes "pool_partition s" "active_notes s f = None" "distinct (available_channels s)"
  shows "pool_partition (note_on f n v s)"
proof (cases "available_channels s")
  case Nil
  then show ?thesis using assms by (simp add: note_on_empty_pool)
next
  case (Cons chan rest)
  note flds = note_on_fields [OF Cons]
  have iu: "in_use (note_on f n v s) = insert chan (in_use s)"
  proof (intro set_eqI iffI)
    fix c assume "c \<in> in_use (note_on f n v s)"
    then show "c \<in> insert chan (in_use s)"
      by (auto simp: in_use_iff flds split: if_splits)
  next
    fix c assume c: "c \<in> insert chan (in_use s)"
    show "c \<in> in_use (note_on f n v s)"
    proof (cases "c = chan")
      case True
      have "active_notes (note_on f n v s) f = Some (chan, n)" by (simp add: flds)
      then show ?thesis unfolding in_use_iff True by blast
    next
      case False
      then obtain g m where g: "active_notes s g = Some (c, m)"
        using c by (auto simp: in_use_iff)
      then have "g \<noteq> f" using assms(2) by auto
      then have "active_notes (note_on f n v s) g = Some (c, m)" using g by (simp add: flds)
      then show ?thesis unfolding in_use_iff by blast
    qed
  qed
  show ?thesis
    using assms(1,3) Cons unfolding pool_partition_def flds iu by auto
qed

lemma note_off_partition:
  assumes "pool_partition s" "no_double_allocation s"
  shows "pool_partition (note_off f n s)"
proof (cases "active_notes s f")
  case None
  then show ?thesis using assms by (simp add: note_off_absent)
next
  case (Some a)
  obtain chan stored where a: "active_notes s f = Some (chan, stored)"
    using Some by (cases a) simp
  have inj: "\<And>f g c n m. active_notes s f = Some (c, n) \<Longrightarrow> active_notes s g = Some (c, m) \<Longrightarrow> f = g"
    using assms(2) unfolding no_double_allocation_def by blast
  have held: "chan \<in> in_use s" using a by (auto simp: in_use_iff)
  have iu: "in_use (note_off f n s) = in_use s - {chan}"
    using note_off_in_use [OF a inj] by simp
  show ?thesis
    using assms(1) held unfolding pool_partition_def note_off_fields(2) [OF a] iu by auto
qed

lemma mpe_init_partition: "pool_partition mpe_init"
  by (simp add: pool_partition_def in_use_def mpe_init_def note_channels_def)

text \<open>Fifteen note-ons exhaust the pool.\<close>

lemma note_on_pool_tl: "available_channels (note_on f n v s) = tl (available_channels s)"
  by (cases "available_channels s") (simp_all add: note_on_empty_pool note_on_fields)

lemma fold_note_on_pool:
  "available_channels (fold (\<lambda>f. note_on f (nf f) (vf f)) fs s) = drop (length fs) (available_channels s)"
  by (induction fs arbitrary: s) (simp_all add: note_on_pool_tl drop_Suc tl_drop)

lemma note_on_dom:
  "available_channels s \<noteq> [] \<Longrightarrow> dom (active_notes (note_on f n v s)) = insert f (dom (active_notes s))"
  by (cases "available_channels s") (simp_all add: note_on_fields)

lemma fold_note_on_dom:
  "length fs \<le> length (available_channels s)
   \<Longrightarrow> dom (active_notes (fold (\<lambda>f. note_on f (nf f) (vf f)) fs s)) = dom (active_notes s) \<union> set fs"
proof (induction fs arbitrary: s)
  case Nil
  then show ?case by simp
next
  case (Cons f fs)
  then have ne: "available_channels s \<noteq> []" by auto
  have "length fs \<le> length (available_channels (note_on f (nf f) (vf f) s))"
    using Cons.prems by (simp add: note_on_pool_tl)
  from Cons.IH [OF this] show ?case
    by (simp add: note_on_dom [OF ne])
qed

lemma note_on_other: "g \<noteq> f \<Longrightarrow> active_notes (note_on f n v s) g = active_notes s g"
  by (cases "available_channels s") (simp_all add: note_on_empty_pool note_on_fields)

lemma fold_note_on_other:
  "g \<notin> set fs \<Longrightarrow> active_notes (fold (\<lambda>f. note_on f (nf f) (vf f)) fs s) g = active_notes s g"
  by (induction fs arbitrary: s) (auto simp: note_on_other)

lemma fold_note_on_stored:
  "distinct fs \<Longrightarrow> length fs \<le> length (available_channels s) \<Longrightarrow> g \<in> set fs
   \<Longrightarrow> \<exists>c. active_notes (fold (\<lambda>f. note_on f (nf f) (vf f)) fs s) g = Some (c, nf g)"
proof (induction fs arbitrary: s)
  case Nil
  then show ?case by simp
next
  case (Cons f fs)
  then obtain chan rest where pool: "available_channels s = chan # rest"
    by (cases "available_channels s") auto
  show ?case
  proof (cases "g = f")
    case True
    then have "g \<notin> set fs" using Cons.prems(1) by simp
    then show ?thesis
      using True by (simp add: fold_note_on_other note_on_fields(1) [OF pool])
  next
    case False
    have "length fs \<le> length (available_channels (note_on f (nf f) (vf f) s))"
      using Cons.prems(2) by (simp add: note_on_pool_tl)
    moreover have "distinct fs" "g \<in> set fs" using Cons.prems False by auto
    ultimately show ?thesis using Cons.IH by simp
  qed
qed

text \<open>
  C7. From a fresh engine, after \<open>note_on\<close> for 15 distinct fingers (any notes and
  velocities) the pool is empty and exactly these 15 fingers hold an association; a 16th
  \<open>note_on\<close> leaves the engine as it is (no association, no message). After one
  \<open>note_off\<close> of an active finger \<open>g\<close> the pool holds the one channel \<open>g\<close> held; the next
  \<open>note_on\<close> takes it, records the association and sends its two messages, and the one
  after that is again a no-op.
\<close>

theorem polyphony_ceiling:
  assumes "distinct fs" and "length fs = 15" and "g \<in> set fs"
  shows "let s15 = fold (\<lambda>f. note_on f (nf f) (vf f)) fs mpe_init;
             s' = note_off g m s15;
             s'' = note_on h n v s'
         in available_channels s15 = []
            \<and> dom (active_notes s15) = set fs
            \<and> card (dom (active_notes s15)) = 15
            \<and> note_on f16 n16 v16 s15 = s15
            \<and> (\<exists>c. active_notes s15 g = Some (c, nf g) \<and> available_channels s' = [c]
                    \<and> active_notes s'' h = Some (c, n)
                    \<and> midi_out s'' = midi_out s' @ [[PITCH_BEND OR c, 0, 64],
                                                      [NOTE_ON OR c, n AND 127, max 1 (min 127 v)]])
            \<and> available_channels s'' = []
            \<and> note_on h' n' v' s'' = s''"
proof -
  define s15 where "s15 = fold (\<lambda>f. note_on f (nf f) (vf f)) fs (mpe_init :: 'a mpe_engine)"
  define s' where "s' = note_off g m s15"
  define s'' where "s'' = note_on h n v s'"
  have len: "length (available_channels (mpe_init :: 'a mpe_engine)) = 15"
    by (simp add: mpe_init_def)
  have pool15: "available_channels s15 = []"
    unfolding s15_def fold_note_on_pool using assms(2) len by simp
  have dom15: "dom (active_notes s15) = set fs"
    unfolding s15_def using fold_note_on_dom [of fs mpe_init nf vf] assms(2) len
    by (simp add: mpe_init_def)
  have card15: "card (dom (active_notes s15)) = 15"
    using dom15 assms(1,2) by (simp add: distinct_card)
  have noop: "note_on f16 n16 v16 s15 = s15"
    using pool15 by (rule note_on_empty_pool)
  obtain c where g: "active_notes s15 g = Some (c, nf g)"
    unfolding s15_def using fold_note_on_stored [OF assms(1) _ assms(3), of mpe_init nf vf] assms(2) len
    by auto
  have pool': "available_channels s' = [c]"
    unfolding s'_def using note_off_fields(2) [OF g] pool15 by simp
  have act'': "active_notes s'' h = Some (c, n)"
    unfolding s''_def using note_on_fields(1) [OF pool'] by simp
  have out'': "midi_out s'' = midi_out s' @ [[PITCH_BEND OR c, 0, 64],
      [NOTE_ON OR c, n AND 127, max 1 (min 127 v)]]"
    unfolding s''_def using note_on_fields(3) [OF pool'] by simp
  have pool'': "available_channels s'' = []"
    unfolding s''_def using note_on_fields(2) [OF pool'] by simp
  have noop'': "note_on h' n' v' s'' = s''"
    using pool'' by (rule note_on_empty_pool)
  show ?thesis
    unfolding Let_def s15_def [symmetric] s'_def [symmetric] s''_def [symmetric]
    using pool15 dom15 card15 noop g pool' act'' out'' pool'' noop'' by blast
qed

text \<open>The theorem at the fingers 0..14, with finger 3 released.\<close>

theorem polyphony_ceiling_witness:
  "distinct [0..<15::nat] \<and> length [0..<15::nat] = 15 \<and> (3::nat) \<in> set [0..<15]
   \<and> (let s15 = fold (\<lambda>f. note_on f (60 + int f) 80) [0..<15::nat] mpe_init;
           s' = note_off 3 None s15;
           s'' = note_on 20 72 80 s'
       in note_on 15 75 80 s15 = s15
          \<and> available_channels s' = [4]
          \<and> active_notes s'' 20 = Some (4, 72)
          \<and> note_on 21 73 80 s'' = s'')"
proof -
  have d: "distinct [0..<15::nat]" and l: "length [0..<15::nat] = 15" and m: "(3::nat) \<in> set [0..<15]"
    by simp_all
  have "active_notes (fold (\<lambda>f. note_on f (60 + int f) 80) [0..<15::nat] mpe_init) 3 = Some (4, 63)"
    by (simp add: upt_rec mpe_init_def note_on_def Let_def send_def upto_rec1)
  with polyphony_ceiling [OF d l m, of "\<lambda>f. 60 + int f" "\<lambda>_. 80" None 20 72 80 15 75 80 21 73 80]
  show ?thesis unfolding Let_def using d l m by auto
qed

text \<open>
  C1. The code at two \<open>note_on\<close> calls for the same finger on a fresh engine: the second
  call takes channel 2 and overwrites the association that held channel 1, so channel 1
  is neither held nor in the pool.
\<close>

theorem repeated_note_on_loses_channel:
  "active_notes (note_on (0, 8) 62 80 (note_on (0::int, 8::int) 60 80 mpe_init)) (0, 8) = Some (2, 62)
   \<and> available_channels (note_on (0, 8) 62 80 (note_on (0::int, 8::int) 60 80 mpe_init)) = [3..15]
   \<and> in_use (note_on (0, 8) 62 80 (note_on (0::int, 8::int) 60 80 mpe_init)) = {2}
   \<and> 1 \<notin> in_use (note_on (0, 8) 62 80 (note_on (0::int, 8::int) 60 80 mpe_init))
            \<union> set (available_channels (note_on (0, 8) 62 80 (note_on (0::int, 8::int) 60 80 mpe_init)))
   \<and> \<not> pool_partition (note_on (0, 8) 62 80 (note_on (0::int, 8::int) 60 80 mpe_init))"
proof -
  define s1 where "s1 = note_on (0::int, 8::int) 60 80 mpe_init"
  define s2 where "s2 = note_on (0::int, 8::int) 62 80 s1"
  have p0: "available_channels (mpe_init :: (int \<times> int) mpe_engine) = 1 # [2..15]"
    by (simp add: mpe_init_def upto_rec1)
  have a1: "active_notes s1 = [(0, 8) \<mapsto> (1, 60)]" and p1: "available_channels s1 = 2 # [3..15]"
    unfolding s1_def note_on_fields [OF p0] by (simp_all add: mpe_init_def upto_rec1)
  have a2: "active_notes s2 = [(0, 8) \<mapsto> (2, 62)]" and p2: "available_channels s2 = [3..15]"
    unfolding s2_def note_on_fields [OF p1] by (simp_all add: a1)
  have iu: "in_use s2 = {2}" by (simp add: in_use_def a2)
  have lost: "1 \<notin> in_use s2 \<union> set (available_channels s2)" by (simp add: iu p2)
  have "1 \<in> note_channels" by (simp add: note_channels_def)
  with lost have "\<not> pool_partition s2" unfolding pool_partition_def by blast
  with a2 p2 iu lost show ?thesis unfolding s1_def s2_def by simp
qed

section \<open>The filter\<close>

lemma alpha_ok:
  assumes "0 \<le> cutoff" "0 \<le> t_e"
  shows "alpha t_e cutoff = Inr (2 * pi * cutoff * t_e / (2 * pi * cutoff * t_e + 1))"
proof -
  have "0 \<le> 2 * pi * cutoff * t_e" using assms by simp
  then have "2 * pi * cutoff * t_e + 1 \<noteq> 0" by linarith
  then show ?thesis by (simp add: alpha_def Let_def)
qed

lemma filter_call_params:
  assumes "filter_call f x t = Inr (y, f')"
  shows "freq f' = freq f" "min_cutoff f' = min_cutoff f" "beta f' = beta f"
    "d_cutoff f' = d_cutoff f" "t_prev f' = Some t" "x_prev f' = Some y"
  using assms
  by (auto simp: filter_call_def Let_def split: sum.splits)

lemma filter_call_ok:
  assumes "0 \<le> min_cutoff f" "0 \<le> beta f" "0 \<le> d_cutoff f"
    and "case t_prev f of None \<Rightarrow> 0 < freq f | Some tp \<Rightarrow> tp < t"
  shows "\<exists>y f'. filter_call f x t = Inr (y, f')"
proof -
  obtain t_e where te: "elapsed f t = Inr t_e" "0 < t_e"
    using assms(4) by (auto simp: elapsed_def split: option.splits)
  obtain a_d where ad: "alpha t_e (d_cutoff f) = Inr a_d"
    using alpha_ok [of "d_cutoff f" t_e] assms(3) te(2) by simp
  have "\<exists>dx. raw_derivative f x t_e = Inr dx"
    using te(2) by (cases "x_prev f") (simp_all add: raw_derivative_def)
  then obtain dx where dx: "raw_derivative f x t_e = Inr dx" by blast
  define cutoff where "cutoff = min_cutoff f + beta f * \<bar>a_d * dx + (1 - a_d) * dx_prev f\<bar>"
  have "0 \<le> cutoff" unfolding cutoff_def using assms(1,2) by simp
  then obtain a where a: "alpha t_e cutoff = Inr a"
    using alpha_ok [of cutoff t_e] te(2) by simp
  show ?thesis
    using te(1) ad dx a unfolding cutoff_def
    by (simp add: filter_call_def Let_def)
qed

text \<open>
  C5 (as amended). With non-negative cutoffs and beta, a filter never raises on a run of
  samples whose timestamps are strictly increasing (each later than the filter's previous
  timestamp; a filter with no previous sample needs a positive frequency). The source has
  no guard for an elapsed time of zero.
\<close>

theorem filter_run_no_error:
  assumes "0 \<le> min_cutoff f" "0 \<le> beta f" "0 \<le> d_cutoff f"
    and "sorted_wrt (<) (map snd samples)"
    and "case t_prev f of None \<Rightarrow> 0 < freq f | Some tp \<Rightarrow> \<forall>t \<in> snd ` set samples. tp < t"
  shows "\<exists>f'. filter_run f samples = Inr f'"
  using assms
proof (induction samples arbitrary: f)
  case Nil
  then show ?case by simp
next
  case (Cons s samples)
  obtain x t where s: "s = (x, t)" by (cases s)
  have "case t_prev f of None \<Rightarrow> 0 < freq f | Some tp \<Rightarrow> tp < t"
    using Cons.prems(5) s by (auto split: option.splits)
  from filter_call_ok [OF Cons.prems(1-3) this]
  obtain y f' where call: "filter_call f x t = Inr (y, f')" by blast
  note p = filter_call_params [OF call]
  have "\<exists>f''. filter_run f' samples = Inr f''"
  proof (rule Cons.IH)
    show "0 \<le> min_cutoff f'" "0 \<le> beta f'" "0 \<le> d_cutoff f'"
      using Cons.prems(1-3) p by simp_all
    show "sorted_wrt (<) (map snd samples)" using Cons.prems(4) by simp
    show "case t_prev f' of None \<Rightarrow> 0 < freq f' | Some tp \<Rightarrow> \<forall>t \<in> snd ` set samples. tp < t"
      using Cons.prems(4) s p(5) by auto
  qed
  then show ?case using call s by simp
qed

lemma filter_first_call:
  assumes "0 < fr" "0 \<le> dc" "0 \<le> mc"
  shows "filter_call (new_filter fr mc b dc) x t
    = Inr (x, \<lparr>freq = fr, min_cutoff = mc, beta = b, d_cutoff = dc,
      x_prev = Some x, dx_prev = 0, t_prev = Some t\<rparr>)"
proof -
  have 1: "alpha (1 / fr) dc = Inr (2 * pi * dc * (1 / fr) / (2 * pi * dc * (1 / fr) + 1))"
    using assms by (intro alpha_ok) simp_all
  have 2: "alpha (1 / fr) mc = Inr (2 * pi * mc * (1 / fr) / (2 * pi * mc * (1 / fr) + 1))"
    using assms by (intro alpha_ok) simp_all
  show ?thesis
    using assms(1) 1 2
    by (simp add: filter_call_def new_filter_def elapsed_def raw_derivative_def Let_def)
qed

text \<open>
  C5, the claim as stated fails: two samples with the same timestamp. The second call
  computes \<open>t_e = 0\<close> and divides by it.
\<close>

theorem zero_dt_raises:
  "filter_run (new_filter 60 1 0 1) [(0.5, 1), (0.6, 1)] = Inl ZeroDivisionError"
proof -
  have 1: "alpha 0 1 = Inr 0" by (simp add: alpha_def)
  show ?thesis
    by (simp add: filter_first_call) (simp add: filter_call_def elapsed_def raw_derivative_def 1)
qed

text \<open>The theorem on two samples one second apart through a fresh filter.\<close>

theorem filter_run_no_error_witness:
  "0 \<le> min_cutoff (new_filter 60 1 0 1) \<and> 0 \<le> beta (new_filter 60 1 0 1)
   \<and> 0 \<le> d_cutoff (new_filter 60 1 0 1)
   \<and> sorted_wrt (<) (map snd [(0.5, 1), (0.6, 2::real)])
   \<and> t_prev (new_filter 60 1 0 1) = None \<and> 0 < freq (new_filter 60 1 0 1)
   \<and> (\<exists>f'. filter_run (new_filter 60 1 0 1) [(0.5, 1), (0.6, 2)] = Inr f')"
proof -
  have a: "0 \<le> min_cutoff (new_filter 60 1 0 1)" and b: "0 \<le> beta (new_filter 60 1 0 1)"
    and c: "0 \<le> d_cutoff (new_filter 60 1 0 1)"
    and n: "t_prev (new_filter 60 1 0 1) = None" and fr: "0 < freq (new_filter 60 1 0 1)"
    by (simp_all add: new_filter_def)
  have d: "sorted_wrt (<) (map snd [(0.5, 1), (0.6, 2::real)])" by simp
  have e: "case t_prev (new_filter 60 1 0 1) of None \<Rightarrow> 0 < freq (new_filter 60 1 0 1)
      | Some tp \<Rightarrow> \<forall>t \<in> snd ` set [(0.5, 1), (0.6, 2::real)]. tp < t"
    by (simp add: new_filter_def)
  from filter_run_no_error [OF a b c d e] a b c d n fr show ?thesis by blast
qed

text \<open>
  C6 (as amended). On a first call (no previous value) the derivative estimate is zero. On
  a call that follows a call returning \<open>y1\<close> at time \<open>t1\<close>, the elapsed time is
  \<open>t2 - t1\<close> and the raw derivative fed to the derivative low-pass is
  \<open>(x2 - y1) / (t2 - t1)\<close>: the difference to the previous filtered output, which is what
  \<open>_x_prev\<close> holds, not to the previous raw input.
\<close>

theorem derivative_uses_previous_output:
  assumes "filter_call f x1 t1 = Inr (y1, f1)" and "filter_call f1 x2 t2 = Inr (y2, f2)"
  shows "(x_prev f = None \<longrightarrow> raw_derivative f x1 t_e = Inr 0)
         \<and> elapsed f1 t2 = Inr (t2 - t1)
         \<and> t2 - t1 \<noteq> 0
         \<and> raw_derivative f1 x2 (t2 - t1) = Inr ((x2 - y1) / (t2 - t1))
         \<and> (\<exists>a_d. alpha (t2 - t1) (d_cutoff f1) = Inr a_d
                \<and> dx_prev f2 = a_d * ((x2 - y1) / (t2 - t1)) + (1 - a_d) * dx_prev f1)"
proof -
  note p = filter_call_params [OF assms(1)]
  have e: "elapsed f1 t2 = Inr (t2 - t1)" by (simp add: elapsed_def p)
  have first: "x_prev f = None \<longrightarrow> raw_derivative f x1 t_e = Inr 0"
    by (simp add: raw_derivative_def)
  obtain a_d where ad: "alpha (t2 - t1) (d_cutoff f1) = Inr a_d"
    using assms(2) e by (auto simp: filter_call_def split: sum.splits)
  obtain dx where dx: "raw_derivative f1 x2 (t2 - t1) = Inr dx"
    using assms(2) e ad by (auto simp: filter_call_def split: sum.splits)
  have ne: "t2 - t1 \<noteq> 0" and dxv: "dx = (x2 - y1) / (t2 - t1)"
    using dx by (auto simp: raw_derivative_def p split: if_splits)
  have "dx_prev f2 = a_d * dx + (1 - a_d) * dx_prev f1"
    using assms(2) e ad dx by (auto simp: filter_call_def Let_def split: sum.splits)
  then show ?thesis using first e ne dx dxv ad by simp
qed

lemma alpha_1_1: "alpha 1 1 = Inr (2 * pi / (2 * pi + 1))"
  using alpha_ok [of 1 1] by simp

lemma second_sample:
  "filter_call \<lparr>freq = 60, min_cutoff = 1, beta = 0, d_cutoff = 1,
      x_prev = Some 0, dx_prev = 0, t_prev = Some 0\<rparr> 1 1
   = Inr (2 * pi / (2 * pi + 1),
      \<lparr>freq = 60, min_cutoff = 1, beta = 0, d_cutoff = 1,
       x_prev = Some (2 * pi / (2 * pi + 1)), dx_prev = 2 * pi / (2 * pi + 1), t_prev = Some 1\<rparr>)"
  by (simp add: filter_call_def elapsed_def raw_derivative_def alpha_1_1 Let_def)

text \<open>
  C6, the claim as stated fails: the samples 0, 1, 1 at the times 0, 1, 2. At the third
  call the previous raw input is 1, so the claimed estimate is \<open>(1 - 1) / (2 - 1)\<close>; the
  filter holds the previous output \<open>2\<pi> / (2\<pi> + 1)\<close> and computes another value.
\<close>

theorem derivative_not_from_previous_raw:
  "filter_run (new_filter 60 1 0 1) [(0, 0), (1, 1)]
     = Inr \<lparr>freq = 60, min_cutoff = 1, beta = 0, d_cutoff = 1,
            x_prev = Some (2 * pi / (2 * pi + 1)), dx_prev = 2 * pi / (2 * pi + 1), t_prev = Some 1\<rparr>
   \<and> raw_derivative \<lparr>freq = 60, min_cutoff = 1, beta = 0, d_cutoff = 1,
            x_prev = Some (2 * pi / (2 * pi + 1)), dx_prev = 2 * pi / (2 * pi + 1), t_prev = Some 1\<rparr>
        1 (2 - 1) \<noteq> Inr ((1 - 1) / (2 - 1))"
proof -
  have "2 * pi + 1 \<noteq> 0" using pi_gt_zero by linarith
  then have "2 * pi / (2 * pi + 1) \<noteq> 1" by (simp add: field_simps)
  then show ?thesis
    by (simp add: filter_first_call second_sample raw_derivative_def)
qed

text \<open>
  The theorem on the first two of these samples.
\<close>

theorem derivative_uses_previous_output_witness:
  "filter_call (new_filter 60 1 0 1) 0 0
     = Inr (0, \<lparr>freq = 60, min_cutoff = 1, beta = 0, d_cutoff = 1,
                x_prev = Some 0, dx_prev = 0, t_prev = Some 0\<rparr>)
   \<and> raw_derivative (new_filter 60 1 0 1) 0 (1 / 60) = Inr 0
   \<and> raw_derivative \<lparr>freq = 60, min_cutoff = 1, beta = 0, d_cutoff = 1,
                x_prev = Some 0, dx_prev = 0, t_prev = Some 0\<rparr> 1 (1 - 0) = Inr ((1 - 0) / (1 - 0))"
proof -
  have 1: "filter_call (new_filter 60 1 0 1) 0 0
     = Inr (0, \<lparr>freq = 60, min_cutoff = 1, beta = 0, d_cutoff = 1,
                x_prev = Some 0, dx_prev = 0, t_prev = Some 0\<rparr>)"
    by (simp add: filter_first_call)
  have 0: "x_prev (new_filter 60 1 0 1) = None" by (simp add: new_filter_def)
  from derivative_uses_previous_output [OF 1 second_sample, of "1 / 60"] 0 1
  show ?thesis by simp
qed


section \<open>The note index\<close>

text \<open>
  C8 (as amended). For a controller whose \<open>num_notes\<close> is \<open>note_end - note_start\<close> (as \<open>__init__\<close> sets
  it) over a note range with \<open>note_start < note_end\<close>, and every horizontal position
  \<open>px\<close>: the note is \<open>note_start + floor (clamp px 0 0.9999 * (note_end - note_start))\<close>,
  it is at least \<open>note_start\<close> and strictly below \<open>note_end\<close>.
\<close>

theorem note_from_x_below_note_end:
  assumes "num_notes c = note_end c - note_start c" and "note_start c < note_end c"
  shows "note_from_x c px
           = note_start c + \<lfloor>max 0 (min 0.9999 px) * real_of_int (note_end c - note_start c)\<rfloor>
         \<and> note_start c \<le> note_from_x c px
         \<and> note_from_x c px < note_end c"
proof -
  define cl where "cl = max 0 (min 0.9999 px)"
  define n where "n = note_end c - note_start c"
  have cl: "0 \<le> cl" "cl \<le> 0.9999" unfolding cl_def by simp_all
  have n: "0 < n" unfolding n_def using assms(2) by simp
  have nonneg: "0 \<le> cl * real_of_int n" using cl n by simp
  have "cl * real_of_int n < real_of_int n" using cl n by simp
  then have lt: "\<lfloor>cl * real_of_int n\<rfloor> < n" by (simp add: floor_less_iff)
  have ge: "0 \<le> \<lfloor>cl * real_of_int n\<rfloor>" using nonneg by simp
  have eq: "note_from_x c px = note_start c + \<lfloor>cl * real_of_int n\<rfloor>"
    using nonneg by (simp add: note_from_x_def py_int_def assms(1) cl_def n_def)
  show ?thesis
    using eq lt ge unfolding cl_def n_def by simp
qed

text \<open>
  The theorem at the spec's example: \<open>px = 0.999\<close>, notes 60 to 84, gives note 83.
\<close>

theorem note_from_x_example:
  "num_notes (controller_init 60 84 0 60) = note_end (controller_init 60 84 0 60) - note_start (controller_init 60 84 0 60)
   \<and> note_start (controller_init 60 84 0 60) < note_end (controller_init 60 84 0 60)
   \<and> note_from_x (controller_init 60 84 0 60) 0.999 = 83
   \<and> note_from_x (controller_init 60 84 0 60) 0.999 < 84"
proof -
  have a: "num_notes (controller_init 60 84 0 60)
      = note_end (controller_init 60 84 0 60) - note_start (controller_init 60 84 0 60)"
    and b: "note_start (controller_init 60 84 0 60) < note_end (controller_init 60 84 0 60)"
    by (simp_all add: controller_init_def)
  have "\<lfloor>(0.999::real) * 24\<rfloor> = 23" by (simp add: floor_eq_iff)
  with note_from_x_below_note_end [OF a b, of "0.999"] a b
  show ?thesis by (simp add: controller_init_def)
qed

text \<open>
  C8, the claim as stated fails for a note range that is empty or inverted, which
  \<open>__init__\<close> accepts as it reads it. With \<open>note_start = note_end = 60\<close> every position maps
  to note 60, which is \<open>note_end\<close> and not below it. With \<open>note_start = 84\<close> and
  \<open>note_end = 60\<close> the product is negative and \<open>int\<close> truncates towards zero: position
  0.52 maps to note 72, where the floor formula gives 71.
\<close>

theorem note_from_x_empty_range:
  "note_end (controller_init 60 60 0 60) = 60
   \<and> num_notes (controller_init 60 60 0 60) = 0
   \<and> note_from_x (controller_init 60 60 0 60) 0.5 = 60
   \<and> \<not> note_from_x (controller_init 60 60 0 60) 0.5 < note_end (controller_init 60 60 0 60)
   \<and> num_notes (controller_init 84 60 0 60) = - 24
   \<and> note_from_x (controller_init 84 60 0 60) 0.52 = 72
   \<and> note_start (controller_init 84 60 0 60)
        + \<lfloor>max 0 (min 0.9999 0.52)
            * real_of_int (note_end (controller_init 84 60 0 60) - note_start (controller_init 84 60 0 60))\<rfloor>
       = 71"
proof -
  have c: "\<lceil>- (312 / 25 :: real)\<rceil> = - 12" by (simp add: ceiling_eq_iff)
  have f: "\<lfloor>- (312 / 25 :: real)\<rfloor> = - 13" by (simp add: floor_eq_iff)
  have m: "max 0 (min 0.9999 (0.52::real)) * real_of_int (- 24) = - (312 / 25)" by simp
  have e: "note_from_x (controller_init 84 60 0 60) 0.52 = 72"
    unfolding note_from_x_def controller_init_def py_int_def using m c by simp
  have g: "note_start (controller_init 84 60 0 60)
        + \<lfloor>max 0 (min 0.9999 0.52)
            * real_of_int (note_end (controller_init 84 60 0 60) - note_start (controller_init 84 60 0 60))\<rfloor>
       = 71"
    unfolding controller_init_def using m f by simp
  have z: "note_from_x (controller_init 60 60 0 60) 0.5 = 60"
    by (simp add: note_from_x_def controller_init_def py_int_def)
  show ?thesis using e g z by (simp add: controller_init_def)
qed

section \<open>The translator\<close>

lemma note_from_x_filters [simp]:
  "note_from_x (c\<lparr>filters_x := fxs, filters_y := fys\<rparr>) px = note_from_x c px"
  by (simp add: note_from_x_def)

lemma process_finger_released:
  assumes "landmark_at landmarks tip_id = Inr (x, y)"
    and "filters_x c (hand_idx, tip_id) = Some flx" and "filter_call flx x t = Inr (fx, flx')"
    and "filters_y c (hand_idx, tip_id) = Some fly" and "filter_call fly y t = Inr (fy, fly')"
    and "active_fingers c (hand_idx, tip_id) = None"
  shows "process_finger landmarks hand_idx t tip_id (c, active) =
     (let c1 = c\<lparr>filters_x := (filters_x c)((hand_idx, tip_id) \<mapsto> flx'),
                  filters_y := (filters_y c)((hand_idx, tip_id) \<mapsto> fly')\<rparr>;
          note = note_from_x c (fst (project_point (spatial c) fx fy))
      in if KEY_ZONE_TOP \<le> fy
         then Inr (c1\<lparr>mpe := note_on (hand_idx, tip_id) note 80 (mpe c),
                      active_fingers := (active_fingers c)((hand_idx, tip_id) \<mapsto> note)\<rparr>,
                   insert note active)
         else Inr (c1, active))"
  using assms by (simp add: process_finger_def Let_def split: prod.splits)

lemma process_finger_pressed:
  assumes "landmark_at landmarks tip_id = Inr (x, y)"
    and "filters_x c (hand_idx, tip_id) = Some flx" and "filter_call flx x t = Inr (fx, flx')"
    and "filters_y c (hand_idx, tip_id) = Some fly" and "filter_call fly y t = Inr (fy, fly')"
    and "active_fingers c (hand_idx, tip_id) = Some old"
    and "KEY_ZONE_TOP \<le> fy"
  shows "process_finger landmarks hand_idx t tip_id (c, active) =
     (let c1 = c\<lparr>filters_x := (filters_x c)((hand_idx, tip_id) \<mapsto> flx'),
                  filters_y := (filters_y c)((hand_idx, tip_id) \<mapsto> fly')\<rparr>;
          note = note_from_x c (fst (project_point (spatial c) fx fy))
      in if old \<noteq> note
         then Inr (c1\<lparr>mpe := note_on (hand_idx, tip_id) note 80
                               (note_off (hand_idx, tip_id) (Some old) (mpe c)),
                      active_fingers := (active_fingers c)((hand_idx, tip_id) \<mapsto> note)\<rparr>,
                   insert note active)
         else Inr (c1, insert note active))"
  using assms by (simp add: process_finger_def Let_def split: prod.splits)


lemma first_sample: "filter_call (new_filter 60 1 0 1) x t = Inr (x, sampled x t)"
  using filter_first_call [where fr = 60 and mc = 1 and b = 0 and dc = 1 and x = x and t = t]
  by (simp add: sampled_def new_filter_def)

lemma landmark_at_replicate: "landmark_at (replicate 21 p) 8 = Inr p"
  by (simp add: landmark_at_def)

lemma fresh_filters:
  "filters_x fresh_controller (0, 8) = Some (new_filter 60 1 0 1)"
  "filters_y fresh_controller (0, 8) = Some (new_filter 60 1 0 1)"
  "active_fingers fresh_controller (0, 8) = None"
  "spatial fresh_controller = spatial_init"
  "mpe fresh_controller = mpe_init"
  "note_start fresh_controller = 60" "num_notes fresh_controller = 24"
  by (simp_all add: fresh_controller_def controller_init_def FINGER_TIPS_def)

text \<open>
  C3 (as amended). For a fingertip that is not pressed, when the landmark is read and both
  filters return, the press fires exactly when the filtered vertical coordinate \<open>fy\<close>, the
  output of the y filter before projection, is at least 0.76: then and only then the
  finger becomes active and \<open>note_on\<close> is called, with the note of the projected
  horizontal coordinate. The projected vertical coordinate takes no part.
\<close>

theorem press_decided_on_filter_output:
  assumes "landmark_at landmarks tip_id = Inr (x, y)"
    and "filters_x c (hand_idx, tip_id) = Some flx" and "filter_call flx x t = Inr (fx, flx')"
    and "filters_y c (hand_idx, tip_id) = Some fly" and "filter_call fly y t = Inr (fy, fly')"
    and "active_fingers c (hand_idx, tip_id) = None"
  shows "\<exists>c' active'.
           process_finger landmarks hand_idx t tip_id (c, active) = Inr (c', active')
           \<and> ((active_fingers c' (hand_idx, tip_id) \<noteq> None) = (0.76 \<le> fy))
           \<and> mpe c' = (if 0.76 \<le> fy
                        then note_on (hand_idx, tip_id)
                               (note_from_x c (fst (project_point (spatial c) fx fy))) 80 (mpe c)
                        else mpe c)"
  unfolding process_finger_released [OF assms]
  by (simp add: Let_def KEY_ZONE_TOP_def assms(6))

text \<open>
  The theorem on a fresh controller: a fingertip at \<open>(0.5, 0.8)\<close> presses note 72.
\<close>

theorem press_decided_on_filter_output_witness:
  "landmark_at (replicate 21 (0.5, 0.8)) 8 = Inr (0.5, 0.8)
   \<and> filter_call (new_filter 60 1 0 1) 0.8 0 = Inr (0.8, sampled 0.8 0)
   \<and> active_fingers fresh_controller (0, 8) = None
   \<and> (\<exists>c' active'.
         process_finger (replicate 21 (0.5, 0.8)) 0 0 8 (fresh_controller, {}) = Inr (c', active')
         \<and> active_fingers c' (0, 8) \<noteq> None
         \<and> mpe c' = note_on (0, 8) 72 80 mpe_init)"
proof -
  have n: "note_from_x fresh_controller (fst (project_point (spatial fresh_controller) 0.5 0.8)) = 72"
    by (simp add: note_from_x_def fresh_filters project_point_def spatial_init_def py_int_def)
  from press_decided_on_filter_output
    [OF landmark_at_replicate [of "(0.5, 0.8)"] fresh_filters(1) first_sample [of "0.5" 0]
      fresh_filters(2) first_sample [of "0.8" 0] fresh_filters(3), where active = "{}"]
  obtain c' active' where
    1: "process_finger (replicate 21 (0.5, 0.8)) 0 0 8 (fresh_controller, {}) = Inr (c', active')"
    and 2: "(active_fingers c' (0, 8) \<noteq> None) = (0.76 \<le> (0.8::real))"
    and 3: "mpe c' = (if 0.76 \<le> (0.8::real)
          then note_on (0, 8)
            (note_from_x fresh_controller (fst (project_point (spatial fresh_controller) 0.5 0.8)))
            80 (mpe fresh_controller)
          else mpe fresh_controller)"
    by blast
  have "active_fingers c' (0, 8) \<noteq> None" using 2 by simp
  moreover have "mpe c' = note_on (0, 8) 72 80 mpe_init"
    unfolding 3 n by (simp add: fresh_filters)
  ultimately show ?thesis
    using 1 landmark_at_replicate [of "(0.5, 0.8)"] first_sample [of "0.8" 0] fresh_filters(3)
    by blast
qed

text \<open>
  C3, the claim as stated fails: a controller calibrated on the upper half of the frame
  and a fingertip at \<open>(0.5, 0.5)\<close>. The filters return the raw point on their first
  call, its projection has the vertical coordinate 1, at or above 0.76, and no press fires:
  only the two filters change.
\<close>

theorem press_ignores_projection:
  "project_point (spatial calibrated_controller) 0.5 0.5 = (0.5, 1)
   \<and> filter_call (new_filter 60 1 0 1) 0.5 0 = Inr (0.5, sampled 0.5 0)
   \<and> process_finger (replicate 21 (0.5, 0.5)) 0 0 8 (calibrated_controller, {})
       = Inr (calibrated_controller
               \<lparr>filters_x := (filters_x calibrated_controller)((0, 8) \<mapsto> sampled 0.5 0),
                filters_y := (filters_y calibrated_controller)((0, 8) \<mapsto> sampled 0.5 0)\<rparr>, {})
   \<and> active_fingers calibrated_controller (0, 8) = None
   \<and> midi_out (mpe calibrated_controller) = []"
proof -
  have p: "project_point (spatial calibrated_controller) 0.5 0.5 = (0.5, 1)"
    by (simp add: calibrated_controller_def project_point_def perspectiveTransform_def
        upper_half_def Let_def)
  have f: "filters_x calibrated_controller (0, 8) = Some (new_filter 60 1 0 1)"
    "filters_y calibrated_controller (0, 8) = Some (new_filter 60 1 0 1)"
    and a: "active_fingers calibrated_controller (0, 8) = None"
    and m: "midi_out (mpe calibrated_controller) = []"
    by (simp_all add: calibrated_controller_def fresh_filters mpe_init_def)
  have "process_finger (replicate 21 (0.5, 0.5)) 0 0 8 (calibrated_controller, {})
       = Inr (calibrated_controller
               \<lparr>filters_x := (filters_x calibrated_controller)((0, 8) \<mapsto> sampled 0.5 0),
                filters_y := (filters_y calibrated_controller)((0, 8) \<mapsto> sampled 0.5 0)\<rparr>, {})"
    unfolding process_finger_released [OF landmark_at_replicate f(1) first_sample f(2) first_sample a]
    by (simp add: Let_def KEY_ZONE_TOP_def)
  with p a m show ?thesis by (simp add: first_sample)
qed


lemma note_off_then_note_on:
  assumes "active_notes s k = Some (chan, stored)"
  shows "active_notes (note_on k n v (note_off k m s)) k
           = Some (hd (available_channels s @ [chan]), n)"
    and "available_channels (note_on k n v (note_off k m s)) = tl (available_channels s @ [chan])"
    and "midi_out (note_on k n v (note_off k m s))
           = midi_out s @
             [[NOTE_OFF OR chan, (case m of None \<Rightarrow> stored | Some j \<Rightarrow> j) AND 0x7F, 0],
              [PITCH_BEND OR chan, 0x00, 0x40],
              [PITCH_BEND OR hd (available_channels s @ [chan]), 0x00, 0x40],
              [NOTE_ON OR hd (available_channels s @ [chan]), n AND 0x7F, max 1 (min 127 v)]]"
proof -
  note off = note_off_fields [OF assms, of m]
  have pool: "available_channels (note_off k m s)
      = hd (available_channels s @ [chan]) # tl (available_channels s @ [chan])"
    unfolding off by simp
  note on = note_on_fields [OF pool, of k n v]
  show "active_notes (note_on k n v (note_off k m s)) k
           = Some (hd (available_channels s @ [chan]), n)"
    unfolding on by simp
  show "available_channels (note_on k n v (note_off k m s)) = tl (available_channels s @ [chan])"
    unfolding on by simp
  show "midi_out (note_on k n v (note_off k m s))
           = midi_out s @
             [[NOTE_OFF OR chan, (case m of None \<Rightarrow> stored | Some j \<Rightarrow> j) AND 0x7F, 0],
              [PITCH_BEND OR chan, 0x00, 0x40],
              [PITCH_BEND OR hd (available_channels s @ [chan]), 0x00, 0x40],
              [NOTE_ON OR hd (available_channels s @ [chan]), n AND 0x7F, max 1 (min 127 v)]]"
    unfolding on off by simp
qed

lemma pool_head_differs:
  assumes "no_double_allocation s" "active_notes s k = Some (chan, stored)"
    and "available_channels s \<noteq> []"
  shows "hd (available_channels s @ [chan]) \<noteq> chan"
proof -
  have "hd (available_channels s @ [chan]) \<in> set (available_channels s)"
    using assms(3) by simp
  moreover have "chan \<in> in_use s" using assms(2) by (auto simp: in_use_iff)
  moreover have "in_use s \<inter> set (available_channels s) = {}"
    using assms(1) by (simp add: no_double_allocation_def)
  ultimately show ?thesis by auto
qed

text \<open>
  C2 (as amended). When a pressed fingertip stays in the key zone and its note index
  changes, the translator calls \<open>note_off\<close> with the old note and then \<open>note_on\<close> with the
  new note for the same finger. The note-off removes the association and puts its channel
  at the back of the pool; the note-on allocates afresh from the front. The messages are
  the note-off and pitch-bend reset on the old channel, then the pitch-bend reset and the
  note-on on the new one. The finger's channel after the slide is the head of the pool
  with the released channel appended: the released channel only when the pool was empty,
  and a different channel whenever the pool was not empty (in an engine that issues no
  channel twice).
\<close>

theorem slide_takes_channel_from_pool:
  assumes "landmark_at landmarks tip_id = Inr (x, y)"
    and "filters_x c (hand_idx, tip_id) = Some flx" and "filter_call flx x t = Inr (fx, flx')"
    and "filters_y c (hand_idx, tip_id) = Some fly" and "filter_call fly y t = Inr (fy, fly')"
    and "active_fingers c (hand_idx, tip_id) = Some old"
    and "KEY_ZONE_TOP \<le> fy"
    and "note_from_x c (fst (project_point (spatial c) fx fy)) = note" and "old \<noteq> note"
    and "active_notes (mpe c) (hand_idx, tip_id) = Some (chan, stored)"
  shows "\<exists>c' active'.
           process_finger landmarks hand_idx t tip_id (c, active) = Inr (c', active')
           \<and> active_fingers c' (hand_idx, tip_id) = Some note
           \<and> mpe c' = note_on (hand_idx, tip_id) note 80
                         (note_off (hand_idx, tip_id) (Some old) (mpe c))
           \<and> midi_out (mpe c')
               = midi_out (mpe c) @
                 [[NOTE_OFF OR chan, old AND 0x7F, 0],
                  [PITCH_BEND OR chan, 0x00, 0x40],
                  [PITCH_BEND OR hd (available_channels (mpe c) @ [chan]), 0x00, 0x40],
                  [NOTE_ON OR hd (available_channels (mpe c) @ [chan]), note AND 0x7F, 80]]
           \<and> finger_channel c (hand_idx, tip_id) = Some chan
           \<and> finger_channel c' (hand_idx, tip_id) = Some (hd (available_channels (mpe c) @ [chan]))
           \<and> (no_double_allocation (mpe c) \<and> available_channels (mpe c) \<noteq> []
                \<longrightarrow> finger_channel c' (hand_idx, tip_id) \<noteq> finger_channel c (hand_idx, tip_id))"
proof -
  let ?k = "(hand_idx, tip_id)"
  let ?m = "note_on ?k note 80 (note_off ?k (Some old) (mpe c))"
  let ?c' = "c\<lparr>filters_x := (filters_x c)(?k \<mapsto> flx'), filters_y := (filters_y c)(?k \<mapsto> fly'),
               mpe := ?m, active_fingers := (active_fingers c)(?k \<mapsto> note)\<rparr>"
  have run: "process_finger landmarks hand_idx t tip_id (c, active) = Inr (?c', insert note active)"
    unfolding process_finger_pressed [OF assms(1-7)] using assms(8,9) by (simp add: Let_def)
  note sw = note_off_then_note_on [OF assms(10), of "note" 80 "Some old"]
  have ch: "finger_channel c ?k = Some chan"
    by (simp add: finger_channel_def assms(10))
  have ch': "finger_channel ?c' ?k = Some (hd (available_channels (mpe c) @ [chan]))"
    by (simp add: finger_channel_def sw(1))
  have diff: "no_double_allocation (mpe c) \<and> available_channels (mpe c) \<noteq> []
      \<longrightarrow> finger_channel ?c' ?k \<noteq> finger_channel c ?k"
    unfolding ch ch' using pool_head_differs [OF _ assms(10)] by simp
  have out: "midi_out (mpe ?c') = midi_out (mpe c) @
                 [[NOTE_OFF OR chan, old AND 0x7F, 0],
                  [PITCH_BEND OR chan, 0x00, 0x40],
                  [PITCH_BEND OR hd (available_channels (mpe c) @ [chan]), 0x00, 0x40],
                  [NOTE_ON OR hd (available_channels (mpe c) @ [chan]), note AND 0x7F, 80]]"
    by (simp add: sw(3))
  have "active_fingers ?c' ?k = Some note" "mpe ?c' = ?m" by simp_all
  with run out ch ch' diff show ?thesis by blast
qed

lemma pressed_fields:
  "filters_x pressed_controller (0, 8) = Some (sampled 0 0)"
  "filters_y pressed_controller (0, 8) = Some (sampled 0.8 0)"
  "active_fingers pressed_controller (0, 8) = Some 60"
  "mpe pressed_controller = note_on (0, 8) 60 80 mpe_init"
  "spatial pressed_controller = spatial_init"
  "note_start pressed_controller = 60" "num_notes pressed_controller = 24"
  by (simp_all add: pressed_controller_def fresh_filters)

lemma pressed_engine:
  "active_notes (mpe pressed_controller) (0, 8) = Some (1, 60)"
  "available_channels (mpe pressed_controller) = [2..15]"
  "no_double_allocation (mpe pressed_controller)"
proof -
  have p0: "available_channels (mpe_init :: finger_key mpe_engine) = 1 # [2..15]"
    by (simp add: mpe_init_def upto_rec1)
  show "active_notes (mpe pressed_controller) (0, 8) = Some (1, 60)"
    "available_channels (mpe pressed_controller) = [2..15]"
    unfolding pressed_fields note_on_fields [OF p0] by simp_all
  show "no_double_allocation (mpe pressed_controller)"
    unfolding pressed_fields by (intro note_on_no_double mpe_init_no_double)
qed

lemma slide_sample_x:
  "filter_call (sampled 0 0) 1 1
     = Inr (2 * pi / (2 * pi + 1), (sampled (2 * pi / (2 * pi + 1)) 1)\<lparr>dx_prev := 2 * pi / (2 * pi + 1)\<rparr>)"
  using second_sample by (simp add: sampled_def new_filter_def)

lemma slide_sample_y: "filter_call (sampled 0.8 0) 0.8 1 = Inr (0.8, sampled 0.8 1)"
  by (simp add: filter_call_def elapsed_def raw_derivative_def alpha_1_1 Let_def sampled_def
      new_filter_def algebra_simps)

lemma slide_note:
  "79 \<le> note_from_x pressed_controller
           (fst (project_point (spatial pressed_controller) (2 * pi / (2 * pi + 1)) 0.8))"
proof -
  have pos: "0 < 2 * pi + 1" using pi_gt_zero by linarith
  have lo: "4 / 5 \<le> 2 * pi / (2 * pi + 1)"
    using pi_ge_two pos by (simp add: field_simps)
  have "4 / 5 \<le> max 0 (min 0.9999 (2 * pi / (2 * pi + 1)))" using lo by simp
  then have "19 \<le> max 0 (min 0.9999 (2 * pi / (2 * pi + 1))) * 24" by simp
  then have "19 \<le> \<lfloor>max 0 (min 0.9999 (2 * pi / (2 * pi + 1))) * 24\<rfloor>"
    by (simp add: le_floor_iff)
  moreover have "0 \<le> max 0 (min 0.9999 (2 * pi / (2 * pi + 1))) * 24" by simp
  ultimately show ?thesis
    by (simp add: note_from_x_def pressed_fields project_point_def spatial_init_def py_int_def)
qed


lemma fresh_active_fingers: "active_fingers fresh_controller = Map.empty"
  by (simp add: fresh_controller_def controller_init_def)

lemma first_frame:
  "process_finger (replicate 21 (0, 0.8)) 0 0 8 (fresh_controller, {}) = Inr (pressed_controller, {60})"
proof -
  have n: "note_from_x fresh_controller (fst (project_point (spatial fresh_controller) 0 0.8)) = 60"
    by (simp add: note_from_x_def fresh_filters project_point_def spatial_init_def py_int_def)
  show ?thesis
    unfolding process_finger_released
      [OF landmark_at_replicate [of "(0, 0.8)"] fresh_filters(1) first_sample [of 0 0]
        fresh_filters(2) first_sample [of "0.8" 0] fresh_filters(3)]
    unfolding Let_def n
    by (simp add: KEY_ZONE_TOP_def pressed_controller_def fresh_filters fresh_active_fingers)
qed

lemma key_zone_example: "KEY_ZONE_TOP \<le> 0.8"
  by (simp add: KEY_ZONE_TOP_def)

text \<open>
  The theorem on the controller after a first frame that pressed note 60 on channel 1: the
  fingertip moves from \<open>x = 0\<close> to \<open>x = 1\<close> one second later.
\<close>

theorem slide_takes_channel_from_pool_witness:
  "\<exists>c' active'.
     process_finger (replicate 21 (1, 0.8)) 0 1 8 (pressed_controller, {}) = Inr (c', active')
     \<and> active_fingers pressed_controller (0, 8) = Some 60
     \<and> active_fingers c' (0, 8) \<noteq> Some 60
     \<and> finger_channel pressed_controller (0, 8) = Some 1
     \<and> finger_channel c' (0, 8) = Some 2"
proof -
  let ?note = "note_from_x pressed_controller
      (fst (project_point (spatial pressed_controller) (2 * pi / (2 * pi + 1)) 0.8))"
  have ne: "60 \<noteq> ?note" using slide_note by linarith
  have hd: "hd (available_channels (mpe pressed_controller) @ [1]) = 2"
    by (simp add: pressed_engine(2) upto_rec1)
  from slide_takes_channel_from_pool
    [OF landmark_at_replicate [of "(1, 0.8)"] pressed_fields(1) slide_sample_x
      pressed_fields(2) slide_sample_y pressed_fields(3) key_zone_example refl ne
      pressed_engine(1), where active = "{}"]
  obtain c' active' where
    1: "process_finger (replicate 21 (1, 0.8)) 0 1 8 (pressed_controller, {}) = Inr (c', active')"
    and 2: "active_fingers c' (0, 8) = Some ?note"
    and 3: "finger_channel pressed_controller (0, 8) = Some 1"
    and 4: "finger_channel c' (0, 8) = Some (hd (available_channels (mpe pressed_controller) @ [1]))"
    by blast
  have "active_fingers c' (0, 8) \<noteq> Some 60" using 2 ne by simp
  moreover have "finger_channel c' (0, 8) = Some 2" using 4 hd by simp
  ultimately show ?thesis using 1 3 pressed_fields(3) by blast
qed

text \<open>
  C2, the claim as stated fails: from a fresh controller, a first frame presses the
  fingertip at \<open>(0, 0.8)\<close> and the finger gets channel 1; in the next frame the fingertip
  is at \<open>(1, 0.8)\<close>, still in the key zone, on another note, and the finger holds
  channel 2.
\<close>

theorem slide_changes_channel:
  "process_finger (replicate 21 (0, 0.8)) 0 0 8 (fresh_controller, {}) = Inr (pressed_controller, {60})
   \<and> finger_channel pressed_controller (0, 8) = Some 1
   \<and> (case process_finger (replicate 21 (1, 0.8)) 0 1 8 (pressed_controller, {}) of
         Inl e \<Rightarrow> False
       | Inr ca \<Rightarrow> active_fingers (fst ca) (0, 8) \<noteq> Some 60
                   \<and> finger_channel (fst ca) (0, 8) = Some 2)"
proof -
  let ?note = "note_from_x pressed_controller
      (fst (project_point (spatial pressed_controller) (2 * pi / (2 * pi + 1)) 0.8))"
  have ne: "60 \<noteq> ?note" using slide_note by linarith
  have before: "finger_channel pressed_controller (0, 8) = Some 1"
    by (simp add: finger_channel_def pressed_engine(1))
  note sw = note_off_then_note_on [OF pressed_engine(1), of ?note 80 "Some 60"]
  have after: "active_notes (note_on (0, 8) ?note 80 (note_off (0, 8) (Some 60) (mpe pressed_controller)))
      (0, 8) = Some (2, ?note)"
    unfolding sw(1) by (simp add: pressed_engine(2) upto_rec1)
  have "case process_finger (replicate 21 (1, 0.8)) 0 1 8 (pressed_controller, {}) of
         Inl e \<Rightarrow> False
       | Inr ca \<Rightarrow> active_fingers (fst ca) (0, 8) \<noteq> Some 60
                   \<and> finger_channel (fst ca) (0, 8) = Some 2"
    unfolding process_finger_pressed
      [OF landmark_at_replicate [of "(1, 0.8)"] pressed_fields(1) slide_sample_x
        pressed_fields(2) slide_sample_y pressed_fields(3) key_zone_example]
    unfolding Let_def using ne after by (simp add: finger_channel_def)
  with first_frame before show ?thesis by blast
qed

section \<open>Calibration\<close>

text \<open>
  C4 (as amended). \<open>calibrate\<close> fails with \<open>ValueError\<close> when the number of points is not
  four. After any failed call the engine is as it was, so \<open>project_point\<close> behaves as
  before. With four points and a non-zero frame size it tests nothing further: the call
  fails exactly when the homography solver raises, and otherwise stores whatever the
  solver returned.
\<close>

theorem calibrate_failure_keeps_calibration:
  "(length src_points \<noteq> 4 \<longrightarrow> fst (calibrate solver src_points frame_w frame_h s) = Some ValueError)
   \<and> (fst (calibrate solver src_points frame_w frame_h s) \<noteq> None
        \<longrightarrow> snd (calibrate solver src_points frame_w frame_h s) = s
            \<and> project_point (snd (calibrate solver src_points frame_w frame_h s)) x y
                = project_point s x y)
   \<and> (length src_points = 4 \<and> frame_w \<noteq> 0 \<and> frame_h \<noteq> 0
        \<longrightarrow> calibrate solver src_points frame_w frame_h s
            = (case solver
                      (map (\<lambda>(px, py). (real_of_int px / real_of_int frame_w,
                                           real_of_int py / real_of_int frame_h)) src_points)
                      [(0, 0), (1, 0), (1, 1), (0, 1)] of
                 Inl e \<Rightarrow> (Some e, s)
               | Inr m \<Rightarrow> (None, s\<lparr>homography_matrix := m\<rparr>)))"
  by (simp add: calibrate_def Let_def split: sum.splits)

text \<open>
  The theorem on a call with two points on a calibrated engine, and on a call with four
  points.
\<close>

theorem calibrate_failure_keeps_calibration_witness:
  "length [(0, 0), (1, 1::int)] \<noteq> 4
   \<and> calibrate no_matrix [(0, 0), (1, 1)] 640 480 \<lparr>homography_matrix = Some upper_half\<rparr>
       = (Some ValueError, \<lparr>homography_matrix = Some upper_half\<rparr>)
   \<and> project_point
        (snd (calibrate no_matrix [(0, 0), (1, 1)] 640 480 \<lparr>homography_matrix = Some upper_half\<rparr>))
        0.5 0.25
       = project_point \<lparr>homography_matrix = Some upper_half\<rparr> 0.5 0.25
   \<and> length [(0, 0), (640, 0), (640, 240), (0, 240::int)] = 4
   \<and> calibrate no_matrix [(0, 0), (640, 0), (640, 240), (0, 240)] 640 480 spatial_init
       = (None, spatial_init)"
proof -
  have l: "length [(0, 0), (1, 1::int)] \<noteq> 4" by simp
  have l4: "length [(0, 0), (640, 0), (640, 240), (0, 240::int)] = 4" by simp
  from calibrate_failure_keeps_calibration
    [of "[(0, 0), (1, 1)]" no_matrix 640 480 "\<lparr>homography_matrix = Some upper_half\<rparr>" "0.5" "0.25"]
    calibrate_failure_keeps_calibration
    [of "[(0, 0), (640, 0), (640, 240), (0, 240)]" no_matrix 640 480 spatial_init 0 0]
  show ?thesis
    by (simp add: no_matrix_def spatial_init_def prod_eq_iff)
qed

text \<open>
  C4, the claim as stated fails: four points on one line, with a solver that raises
  nothing and returns no matrix. \<open>calibrate\<close> reports no error, and the calibration that
  was in effect is gone: the projection of \<open>(0.5, 0.25)\<close> changes.
\<close>

theorem degenerate_calibration_replaces:
  "degenerate [(0, 0), (100, 0), (200, 0), (300, 0)]
   \<and> calibrate no_matrix [(0, 0), (100, 0), (200, 0), (300, 0)] 640 480
        \<lparr>homography_matrix = Some upper_half\<rparr>
       = (None, \<lparr>homography_matrix = None\<rparr>)
   \<and> project_point \<lparr>homography_matrix = Some upper_half\<rparr> 0.5 0.25 = (0.5, 0.5)
   \<and> project_point \<lparr>homography_matrix = None\<rparr> 0.5 0.25 = (0.5, 0.25)"
  by (simp add: degenerate_def collinear3_def calibrate_def no_matrix_def Let_def
      project_point_def perspectiveTransform_def upper_half_def)

end
